theory Spec2Isabelle
  imports Main "HOL-Library.Log_Nat" "HOL-Library.Sublist"
begin

section \<open>Midicast: the Background cycle (packages/main/src/cycles/Background.ts)\<close>

text \<open>
  The Background cycle is written as RxJS stream combinators.  Each stream is embedded as
  the function its callbacks compute: the bucket map of \<open>notesByTrackIDByTime$\<close>, the
  interval run of \<open>playCurrentTime$$\<close>, the fold of \<open>activeTrackIDs$\<close> over its own last
  value (\<open>activeTrackIDProxy\<close>), the per-tick dispatch of \<open>note$\<close> and the
  \<open>instrumentConnection\<close> sink.

  Numbers.  A JavaScript number is an IEEE 754 double.  Numbers that carry a time in
  seconds or milliseconds are rationals, and every product, quotient and sum the source
  computes on them is rounded to the nearest double (ties to even) by \<open>round_double\<close>;
  the exponent range is taken unbounded, so the rounding is the one of the hardware for
  every result in the normal range.  Integer-valued numbers (interval counts, tick
  offsets, bucket keys, track ids) are \<open>nat\<close> or \<open>int\<close>: double arithmetic is exact on
  integers below \<open>2 ^ 53\<close>.
\<close>

subsection \<open>Double rounding\<close>

definition pow2 :: "int \<Rightarrow> rat" where
  "pow2 e = (if 0 \<le> e then 2 ^ nat e else 1 / 2 ^ nat (- e))"

definition round_half_even :: "rat \<Rightarrow> int" where
  "round_half_even r =
     (let f = \<lfloor>r\<rfloor>; d = r - of_int f
      in if d < 1 / 2 then f
         else if 1 / 2 < d then f + 1
         else if even f then f else f + 1)"

text \<open>\<open>binade a\<close> is the exponent \<open>e\<close> with \<open>2 ^ e \<le> a < 2 ^ (e + 1)\<close>, for \<open>a > 0\<close>.\<close>

definition binade :: "rat \<Rightarrow> int" where
  "binade a =
     (let (p, q) = quotient_of a; e0 = bitlen p - bitlen q
      in if pow2 e0 \<le> a then e0 else e0 - 1)"

definition round_double :: "rat \<Rightarrow> rat" where
  "round_double x =
     (if x = 0 then 0
      else let a = \<bar>x\<bar>; ulp = pow2 (binade a - 52)
           in sgn x * of_int (round_half_even (a / ulp)) * ulp)"

definition js_mul :: "rat \<Rightarrow> rat \<Rightarrow> rat" where
  "js_mul x y = round_double (x * y)"

definition js_div :: "rat \<Rightarrow> rat \<Rightarrow> rat" where
  "js_div x y = round_double (x / y)"

definition js_add :: "rat \<Rightarrow> rat \<Rightarrow> rat" where
  "js_add x y = round_double (x + y)"

subsection \<open>Data: the decoded song (MIDIConvert.MIDI after toJSON) and the messages\<close>

record MIDINote =
  note_time :: rat
  note_midi :: nat
  note_duration :: rat
  note_velocity :: rat

text \<open>The name of a track is undefined when the file gives the track none; the
  family is undefined for a track without an instrument.\<close>

record Track =
  track_id :: nat
  track_name :: "string option"
  track_instrumentFamily :: "string option"
  track_notes :: "MIDINote list"

record MIDI =
  header_name :: "string option"
  midi_duration :: rat
  midi_tracks :: "Track list"

text \<open>types.ts: \<open>Song\<close> is the song reference of a PLAY_SONG request, \<open>Note\<close> the
  descriptor sent to the instrument.\<close>

record Song =
  song_label :: string
  song_url :: string

record Note =
  Note_note :: nat
  Note_duration :: rat
  Note_velocity :: rat
  Note_time :: rat

datatype PlaybackStatus = PLAYING | STOPPED | PAUSED

text \<open>The payload of CHANGE_TRACK_ACTIVE_STATUS is \<open>{id, active}\<close>; the payload of
  CHANGE_ACTIVE_TRACKS is \<open>{query, active, id}\<close>, where \<open>query\<close> is \<open>'all'\<close>, \<open>'family'\<close>
  or a comma-separated search string and \<open>id\<close> is the family name (or undefined).\<close>

record TrackActiveStatus =
  tas_id :: nat
  tas_active :: bool

record ActiveTracksQuery =
  atq_query :: string
  atq_active :: bool
  atq_id :: "string option"

datatype Message =
    PLAY_SONG Song
  | CHANGE_PLAYBACK_STATUS PlaybackStatus
  | CHANGE_TRACK_ACTIVE_STATUS TrackActiveStatus
  | CHANGE_ACTIVE_TRACKS ActiveTracksQuery
  | UPDATE_STATUSES

text \<open>A callback that reads a property of \<open>undefined\<close> throws a TypeError.\<close>

datatype error = TypeError

subsection \<open>\<open>notesByTrackIDByTime$\<close> (lines 124-157)\<close>

type_synonym NotesByTrackID = "nat \<rightharpoonup> Note list"
type_synonym NotesByTrackIDByTime = "int \<rightharpoonup> NotesByTrackID"

definition roundedTime :: "MIDINote \<Rightarrow> int" where
  "roundedTime note = \<lfloor>js_mul (note_time note) 10\<rfloor> * 100"

definition queued :: "MIDINote \<Rightarrow> Note" where
  "queued note =
     \<lparr>Note_note = note_midi note,
      Note_duration = js_mul (note_duration note) 1000,
      Note_velocity = note_velocity note,
      Note_time = js_mul (note_time note) 1000\<rparr>"

text \<open>The body of the inner \<open>forEach\<close>: create the bucket and the track's list when
  they are missing, then push.\<close>

definition push_note :: "nat \<Rightarrow> MIDINote \<Rightarrow> NotesByTrackIDByTime \<Rightarrow> NotesByTrackIDByTime" where
  "push_note trackID note m =
     (let byTrackID = (case m (roundedTime note) of None \<Rightarrow> Map.empty | Some b \<Rightarrow> b);
          ns = (case byTrackID trackID of None \<Rightarrow> [] | Some l \<Rightarrow> l)
      in m(roundedTime note \<mapsto> byTrackID(trackID \<mapsto> ns @ [queued note])))"

text \<open>The outer \<open>forEach\<close> passes the array index as \<open>trackID\<close>, not \<open>track.id\<close>.\<close>

definition notesByTrackIDByTime :: "MIDI \<Rightarrow> NotesByTrackIDByTime" where
  "notesByTrackIDByTime namedMIDI =
     fold (\<lambda>(trackID, track) m. fold (push_note trackID) (track_notes track) m)
       (enumerate 0 (midi_tracks namedMIDI)) Map.empty"

text \<open>The notes queued for a track in a bucket, empty when bucket or track is absent.\<close>

definition notes_at :: "NotesByTrackIDByTime \<Rightarrow> int \<Rightarrow> nat \<Rightarrow> Note list" where
  "notes_at m t trackID =
     (case m t of None \<Rightarrow> []
      | Some byTrackID \<Rightarrow> (case byTrackID trackID of None \<Rightarrow> [] | Some ns \<Rightarrow> ns))"

subsection \<open>\<open>playCurrentTime$$\<close>: one interval run (lines 163-174)\<close>

text \<open>\<open>Observable.interval(100)\<close> counts 0, 1, 2, ...; \<open>takeWhile\<close> ends the run at
  the first offset that the song's duration does not exceed; \<open>takeUntil\<close> ends it when a
  stop request or an offline signal arrives, here after \<open>until\<close> firings of the timer
  (\<open>None\<close>: never).\<close>

definition durationMs :: "MIDI \<Rightarrow> rat" where
  "durationMs midiSong = js_mul (midi_duration midiSong) 1000"

function interval_run :: "MIDI \<Rightarrow> nat option \<Rightarrow> nat \<Rightarrow> nat list" where
  "interval_run midiSong until count =
     (if (case until of None \<Rightarrow> False | Some c \<Rightarrow> c \<le> count) then []
      else if durationMs midiSong > of_nat (count * 100)
           then count * 100 # interval_run midiSong until (Suc count)
           else [])"
  by pat_completeness auto

termination
proof (relation "measure (\<lambda>(midiSong, until, count). nat \<lceil>durationMs midiSong / 100\<rceil> - count)")
  show "wf (measure (\<lambda>(midiSong, until, count). nat \<lceil>durationMs midiSong / 100\<rceil> - count))"
    by simp
next
  fix midiSong :: MIDI and until :: "nat option" and count :: nat
  assume "of_nat (count * 100) < durationMs midiSong"
  then have "rat_of_nat count < durationMs midiSong / 100"
    by simp
  also have "\<dots> \<le> of_int \<lceil>durationMs midiSong / 100\<rceil>"
    by (rule le_of_int_ceiling)
  finally have "int count < \<lceil>durationMs midiSong / 100\<rceil>"
    by (metis of_int_less_iff of_int_of_nat_eq)
  then have "count < nat \<lceil>durationMs midiSong / 100\<rceil>"
    by linarith
  then show "((midiSong, until, Suc count), (midiSong, until, count))
      \<in> measure (\<lambda>(midiSong, until, count). nat \<lceil>durationMs midiSong / 100\<rceil> - count)"
    by simp
qed

declare interval_run.simps [simp del]

definition playCurrentTime :: "MIDI \<Rightarrow> nat option \<Rightarrow> nat list" where
  "playCurrentTime midiSong until = interval_run midiSong until 0"

subsection \<open>\<open>activeTrackIDs$\<close> (lines 182-259)\<close>

definition allTrackIDs :: "MIDI \<Rightarrow> nat list" where
  "allTrackIDs song = map track_id (midi_tracks song)"

text \<open>Lines 189-196: the single-track request, applied to the last active list.\<close>

definition changeTrackActiveStatus :: "TrackActiveStatus \<Rightarrow> nat list \<Rightarrow> nat list" where
  "changeTrackActiveStatus request activeTrackIDs =
     (if tas_active request then activeTrackIDs @ [tas_id request]
      else filter (\<lambda>trackID. trackID \<noteq> tas_id request) activeTrackIDs)"

text \<open>String operations of the search branch.  \<open>String.prototype.toLowerCase\<close> is a
  built-in of the language: the definitions that call it take it as the parameter
  \<open>toLowerCase\<close>, and the properties hold for every such function.
  \<open>toLowerCase_ascii\<close>, which folds the letters A to Z, is the built-in on ASCII strings and
  is used in the examples.  \<open>split(',')\<close> always returns at least one piece.\<close>

definition toLowerChar :: "char \<Rightarrow> char" where
  "toLowerChar c =
     (case map_of (zip ''ABCDEFGHIJKLMNOPQRSTUVWXYZ'' ''abcdefghijklmnopqrstuvwxyz'') c of
        None \<Rightarrow> c | Some l \<Rightarrow> l)"

definition toLowerCase_ascii :: "string \<Rightarrow> string" where
  "toLowerCase_ascii s = map toLowerChar s"

fun js_split :: "char \<Rightarrow> string \<Rightarrow> string list" where
  "js_split sep [] = [[]]"
| "js_split sep (c # cs) =
     (if c = sep then [] # js_split sep cs
      else (case js_split sep cs of [] \<Rightarrow> [[c]] | piece # pieces \<Rightarrow> (c # piece) # pieces))"

fun js_includes :: "string \<Rightarrow> string \<Rightarrow> bool" where
  "js_includes [] piece = (piece = [])"
| "js_includes (c # cs) piece = (prefix piece (c # cs) \<or> js_includes cs piece)"

text \<open>\<open>Array.filter\<close> and \<open>Array.some\<close> with a callback that may throw: the first throw
  ends them; \<open>some\<close> also ends at the first element the callback accepts.\<close>

fun filter_throwing :: "('a \<Rightarrow> error + bool) \<Rightarrow> 'a list \<Rightarrow> error + 'a list" where
  "filter_throwing p [] = Inr []"
| "filter_throwing p (x # xs) =
     (case p x of
        Inl e \<Rightarrow> Inl e
      | Inr keep \<Rightarrow>
          (case filter_throwing p xs of
             Inl e \<Rightarrow> Inl e
           | Inr ys \<Rightarrow> Inr (if keep then x # ys else ys)))"

fun some_throwing :: "('a \<Rightarrow> error + bool) \<Rightarrow> 'a list \<Rightarrow> error + bool" where
  "some_throwing p [] = Inr False"
| "some_throwing p (x # xs) =
     (case p x of
        Inl e \<Rightarrow> Inl e
      | Inr found \<Rightarrow> (if found then Inr True else some_throwing p xs))"

text \<open>\<open>song.tracks[trackID].instrumentFamily\<close> and \<open>song.tracks[id].name\<close> throw when
  the index is outside the array.\<close>

definition track_at :: "MIDI \<Rightarrow> nat \<Rightarrow> error + Track" where
  "track_at song trackID =
     (if trackID < length (midi_tracks song) then Inr (midi_tracks song ! trackID)
      else Inl TypeError)"

text \<open>\<open>track.name.toLowerCase().includes(queryPiece)\<close> (lines 234 and 250) throws on a
  track without a name.\<close>

definition includesPiece :: "(string \<Rightarrow> string) \<Rightarrow> Track \<Rightarrow> string \<Rightarrow> error + bool" where
  "includesPiece toLowerCase track queryPiece =
     (case track_name track of
        None \<Rightarrow> Inl TypeError
      | Some name \<Rightarrow> Inr (js_includes (toLowerCase name) queryPiece))"

text \<open>Lines 233-235: \<open>queryPieces.some(...)\<close> on a track of the song.\<close>

definition matchesQuery :: "(string \<Rightarrow> string) \<Rightarrow> string list \<Rightarrow> Track \<Rightarrow> error + bool" where
  "matchesQuery toLowerCase queryPieces track =
     some_throwing (includesPiece toLowerCase track) queryPieces"

text \<open>Lines 249-251: \<open>!queryPieces.some(...)\<close> on an active id; the callback of \<open>some\<close>
  reads \<open>song.tracks[id]\<close>.\<close>

definition staysActive ::
    "(string \<Rightarrow> string) \<Rightarrow> string list \<Rightarrow> MIDI \<Rightarrow> nat \<Rightarrow> error + bool" where
  "staysActive toLowerCase queryPieces song trackID =
     (case some_throwing
             (\<lambda>queryPiece. case track_at song trackID of
                  Inl e \<Rightarrow> Inl e
                | Inr track \<Rightarrow> includesPiece toLowerCase track queryPiece)
             queryPieces of
        Inl e \<Rightarrow> Inl e
      | Inr found \<Rightarrow> Inr (\<not> found))"

text \<open>Lines 240-246: push every old id that the new list does not include yet.\<close>

definition push_missing :: "nat list \<Rightarrow> nat list \<Rightarrow> nat list" where
  "push_missing oldActiveTrackIDs activeTrackIDs =
     fold (\<lambda>trackID acc. if trackID \<in> set acc then acc else acc @ [trackID])
       oldActiveTrackIDs activeTrackIDs"

text \<open>Lines 211-213: the family \<open>'other'\<close> stands for tracks without a family.
  Line 229: the pieces of a search string.\<close>

definition queryFamily :: "ActiveTracksQuery \<Rightarrow> string option" where
  "queryFamily request = (if atq_id request = Some ''other'' then None else atq_id request)"

definition queryPieces :: "(string \<Rightarrow> string) \<Rightarrow> ActiveTracksQuery \<Rightarrow> string list" where
  "queryPieces toLowerCase request = js_split CHR '','' (toLowerCase (atq_query request))"

text \<open>Lines 199-257.\<close>

definition changeActiveTracks ::
    "(string \<Rightarrow> string) \<Rightarrow> ActiveTracksQuery \<Rightarrow> nat list \<Rightarrow> MIDI \<Rightarrow> error + nat list" where
  "changeActiveTracks toLowerCase request oldActiveTrackIDs song =
     (if atq_query request = ''all'' then
        (if atq_active request then Inr (map track_id (midi_tracks song)) else Inr [])
      else if atq_query request = ''family'' then
        (if atq_active request then
           Inr (oldActiveTrackIDs @
                map track_id
                  (filter (\<lambda>track. track_instrumentFamily track = queryFamily request)
                     (midi_tracks song)))
         else
           filter_throwing
             (\<lambda>trackID. case track_at song trackID of
                  Inl e \<Rightarrow> Inl e
                | Inr track \<Rightarrow> Inr (track_instrumentFamily track \<noteq> queryFamily request))
             oldActiveTrackIDs)
      else
        (if atq_active request then
           (case filter_throwing (matchesQuery toLowerCase (queryPieces toLowerCase request))
                   (midi_tracks song) of
              Inl e \<Rightarrow> Inl e
            | Inr matching \<Rightarrow> Inr (push_missing oldActiveTrackIDs (map track_id matching)))
         else
           filter_throwing (staysActive toLowerCase (queryPieces toLowerCase request) song)
             oldActiveTrackIDs))"

subsection \<open>\<open>note$\<close>: the notes sent to the instrument at one tick (lines 263-282)\<close>

text \<open>The bucket of the tick is looked up (an absent bucket is filtered out); each
  active id contributes its list, or \<open>undefined\<close>, which \<open>concat\<close> keeps as an element and
  the second filter drops; every remaining note gets the starting time added.\<close>

definition note_tick :: "NotesByTrackIDByTime \<Rightarrow> nat list \<Rightarrow> rat \<Rightarrow> nat \<Rightarrow> Note list" where
  "note_tick byTime activeTrackIDs startTime time =
     (case byTime (int time) of
        None \<Rightarrow> []
      | Some notesByTrackID \<Rightarrow>
          map (\<lambda>note. note\<lparr>Note_time := js_add startTime (Note_time note)\<rparr>)
            (List.map_filter (\<lambda>value. value)
               (concat (map (\<lambda>trackID. case notesByTrackID trackID of
                                 None \<Rightarrow> [None]
                               | Some ns \<Rightarrow> map Some ns) activeTrackIDs))))"

subsection \<open>The \<open>instrumentConnection\<close> sink (lines 325-328)\<close>

text \<open>\<open>merge(songRequest$, playRequest$).startWith(undefined)\<close>: both streams pluck the
  payload of their message, a \<open>Song\<close> or the requested status.\<close>

datatype ConnectionSignal = Undefined | SongPayload Song | StatusPayload PlaybackStatus

fun connectionSignal :: "Message \<Rightarrow> ConnectionSignal option" where
  "connectionSignal (PLAY_SONG song) = Some (SongPayload song)"
| "connectionSignal (CHANGE_PLAYBACK_STATUS status) =
     (if status = PLAYING then Some (StatusPayload status) else None)"
| "connectionSignal _ = None"

definition instrumentConnection :: "Message list \<Rightarrow> ConnectionSignal list" where
  "instrumentConnection messages = Undefined # List.map_filter connectionSignal messages"

subsection \<open>The message-driven part of the cycle as a step function\<close>

text \<open>
  The state holds the values the streams replay: the last song of \<open>midiSong$\<close>
  (\<open>publishReplay\<close>), the last list sent to \<open>activeTrackIDProxy\<close>, the last value of
  \<open>playStartingTime$\<close>, and the requests whose fetch is still running inside the
  \<open>flatMap\<close> of \<open>midiSong$\<close>.  An event is a message, an availability signal, or the
  settling of the fetch/parse promise of the pending request at some position.  A step
  returns the new state and what \<open>midiSong$\<close>, \<open>playStartingTime$\<close> and
  \<open>activeTrackIDs$\<close> emit; \<open>now\<close> is the reading of \<open>performance.now()\<close>.  The timers of
  the runs are not events of this machine: a run is \<open>playCurrentTime\<close>, and the
  STOPPED values of \<open>currentPlaybackStatus$\<close>, which the end of a run causes, are
  not among the emissions of a step.  The active list is the one of the subscription
  that feeds \<open>activeTrackIDProxy\<close> (line 261).
\<close>

record State =
  midiSong :: "MIDI option"
  pending :: "Song list"
  activeTrackIDProxy :: "nat list option"
  playStartingTime :: "rat option"

datatype Event =
    Incoming Message
  | InstrumentAvailability bool
  | FetchResolved nat MIDI
  | FetchRejected nat

datatype Emission = MidiSong MIDI | PlayStartingTime rat | ActiveTrackIDs "nat list"

definition initial :: State where
  "initial = \<lparr>midiSong = None, pending = [], activeTrackIDProxy = None,
     playStartingTime = None\<rparr>"

text \<open>Lines 82-94: a song without a name takes the label of the request.\<close>

definition named :: "Song \<Rightarrow> MIDI \<Rightarrow> MIDI" where
  "named song midi =
     (if header_name midi = None \<or> header_name midi = Some []
      then midi\<lparr>header_name := Some (song_label song)\<rparr> else midi)"

definition drop_nth :: "nat \<Rightarrow> 'a list \<Rightarrow> 'a list" where
  "drop_nth k xs = take k xs @ drop (Suc k) xs"

fun step ::
    "(string \<Rightarrow> string) \<Rightarrow> rat \<Rightarrow> Event \<Rightarrow> State \<Rightarrow> error + State \<times> Emission list" where
  "step toLowerCase now (Incoming (PLAY_SONG song)) st =
     Inr (st\<lparr>pending := pending st @ [song]\<rparr>, [])"
| "step toLowerCase now (Incoming (CHANGE_PLAYBACK_STATUS status)) st =
     (if status = PLAYING
      then Inr (st\<lparr>playStartingTime := Some now\<rparr>, [PlayStartingTime now])
      else Inr (st, []))"
| "step toLowerCase now (Incoming (CHANGE_TRACK_ACTIVE_STATUS request)) st =
     (case activeTrackIDProxy st of
        None \<Rightarrow> Inr (st, [])
      | Some activeTrackIDs \<Rightarrow>
          (let new = changeTrackActiveStatus request activeTrackIDs
           in Inr (st\<lparr>activeTrackIDProxy := Some new\<rparr>, [ActiveTrackIDs new])))"
| "step toLowerCase now (Incoming (CHANGE_ACTIVE_TRACKS request)) st =
     (case activeTrackIDProxy st of
        None \<Rightarrow> Inr (st, [])
      | Some oldActiveTrackIDs \<Rightarrow>
          (case midiSong st of
             None \<Rightarrow> Inr (st, [])
           | Some song \<Rightarrow>
               (case changeActiveTracks toLowerCase request oldActiveTrackIDs song of
                  Inl e \<Rightarrow> Inl e
                | Inr new \<Rightarrow> Inr (st\<lparr>activeTrackIDProxy := Some new\<rparr>, [ActiveTrackIDs new]))))"
| "step toLowerCase now (Incoming UPDATE_STATUSES) st = Inr (st, [])"
| "step toLowerCase now (InstrumentAvailability isAvailable) st =
     Inr (if isAvailable then st else st\<lparr>pending := []\<rparr>, [])"
| "step toLowerCase now (FetchResolved k parsed) st =
     (if k < length (pending st)
      then (let midi = named (pending st ! k) parsed
            in Inr (st\<lparr>midiSong := Some midi,
                       pending := drop_nth k (pending st),
                       activeTrackIDProxy := Some (allTrackIDs midi),
                       playStartingTime := Some now\<rparr>,
                    [MidiSong midi, PlayStartingTime now, ActiveTrackIDs (allTrackIDs midi)]))
      else Inr (st, []))"
| "step toLowerCase now (FetchRejected k) st =
     Inr (st\<lparr>pending := drop_nth k (pending st)\<rparr>, [])"

fun run :: "(string \<Rightarrow> string) \<Rightarrow> (rat \<times> Event) list \<Rightarrow> State \<Rightarrow> error + State" where
  "run toLowerCase [] st = Inr st"
| "run toLowerCase ((now, ev) # evs) st =
     (case step toLowerCase now ev st of
        Inl e \<Rightarrow> Inl e
      | Inr (st', out) \<Rightarrow> run toLowerCase evs st')"

text \<open>The ticks of the run that is live in a state: \<open>withLatestFrom(midiSong$)\<close> lets no
  tick through while no song has arrived.\<close>

definition ticks_of_run :: "State \<Rightarrow> nat option \<Rightarrow> nat list" where
  "ticks_of_run st until =
     (case midiSong st of None \<Rightarrow> [] | Some song \<Rightarrow> playCurrentTime song until)"

subsection \<open>Predicates of the properties\<close>

text \<open>The active list names tracks of the current song only.\<close>

definition activeSubset :: "State \<Rightarrow> bool" where
  "activeSubset st =
     (case activeTrackIDProxy st of
        None \<Rightarrow> True
      | Some activeTrackIDs \<Rightarrow>
          (case midiSong st of
             None \<Rightarrow> False
           | Some song \<Rightarrow> list_all (\<lambda>trackID. trackID \<in> set (allTrackIDs song)) activeTrackIDs))"


definition all_named :: "MIDI \<Rightarrow> bool" where
  "all_named song = list_all (\<lambda>track. track_name track \<noteq> None) (midi_tracks song)"

text \<open>An event is acceptable in a state when the track it activates is a track of the
  current song.\<close>

fun acceptable :: "Event \<Rightarrow> State \<Rightarrow> bool" where
  "acceptable (Incoming (CHANGE_TRACK_ACTIVE_STATUS request)) st =
     (if tas_active request
      then (case midiSong st of
              None \<Rightarrow> True
            | Some song \<Rightarrow> tas_id request \<in> set (allTrackIDs song))
      else True)"
| "acceptable _ st = True"

fun all_acceptable :: "(string \<Rightarrow> string) \<Rightarrow> (rat \<times> Event) list \<Rightarrow> State \<Rightarrow> bool" where
  "all_acceptable toLowerCase [] st = True"
| "all_acceptable toLowerCase ((now, ev) # evs) st =
     (acceptable ev st \<and>
      (case step toLowerCase now ev st of
         Inl e \<Rightarrow> True
       | Inr (st', out) \<Rightarrow> all_acceptable toLowerCase evs st'))"


text \<open>The number of ticks of a run: the offsets below the duration, cut at the stop.\<close>

definition run_length :: "MIDI \<Rightarrow> nat option \<Rightarrow> nat" where
  "run_length song until =
     (case until of
        None \<Rightarrow> nat \<lceil>durationMs song / 100\<rceil>
      | Some c \<Rightarrow> min c (nat \<lceil>durationMs song / 100\<rceil>))"

subsection \<open>Example inputs\<close>

text \<open>A song of 500 ms with two tracks, each with a note at 0 and a note at 250 ms.\<close>

definition song_500 :: MIDI where
  "song_500 =
     \<lparr>header_name = Some ''Test'', midi_duration = 1 / 2,
      midi_tracks =
        [\<lparr>track_id = 0, track_name = Some ''Grand Piano'', track_instrumentFamily = Some ''piano'',
          track_notes =
            [\<lparr>note_time = 0, note_midi = 60, note_duration = 1 / 10, note_velocity = 1 / 2\<rparr>,
             \<lparr>note_time = 1 / 4, note_midi = 62, note_duration = 1 / 10, note_velocity = 1 / 2\<rparr>]\<rparr>,
         \<lparr>track_id = 1, track_name = Some ''Bass'', track_instrumentFamily = None,
          track_notes =
            [\<lparr>note_time = 0, note_midi = 36, note_duration = 1 / 10, note_velocity = 1 / 2\<rparr>,
             \<lparr>note_time = 1 / 4, note_midi = 38, note_duration = 1 / 10, note_velocity = 1 / 2\<rparr>]\<rparr>]\<rparr>"

definition test_song :: Song where
  "test_song = \<lparr>song_label = ''Test'', song_url = ''a.mid''\<rparr>"

definition family_piano_on :: ActiveTracksQuery where
  "family_piano_on = \<lparr>atq_query = ''family'', atq_active = True, atq_id = Some ''piano''\<rparr>"

definition family_piano_off :: ActiveTracksQuery where
  "family_piano_off = \<lparr>atq_query = ''family'', atq_active = False, atq_id = Some ''piano''\<rparr>"

definition search_piano_on :: ActiveTracksQuery where
  "search_piano_on = \<lparr>atq_query = ''Piano'', atq_active = True, atq_id = None\<rparr>"


text \<open>A note whose onset is the double nearest to 32.3 seconds.\<close>

definition note_32_3 :: MIDINote where
  "note_32_3 =
     \<lparr>note_time = 2272910436938547 / 70368744177664, note_midi = 60,
      note_duration = 1 / 2, note_velocity = 1 / 2\<rparr>"

definition song_32_3 :: MIDI where
  "song_32_3 =
     \<lparr>header_name = Some ''Etude'', midi_duration = 60,
      midi_tracks = [\<lparr>track_id = 0, track_name = Some ''Piano'',
                      track_instrumentFamily = Some ''piano'', track_notes = [note_32_3]\<rparr>]\<rparr>"

text \<open>A song with six empty tracks, numbered by position.\<close>

definition song_6 :: MIDI where
  "song_6 =
     \<lparr>header_name = None, midi_duration = 90,
      midi_tracks =
        [\<lparr>track_id = 0, track_name = Some ''Drums'', track_instrumentFamily = Some ''drums'',
          track_notes = []\<rparr>,
         \<lparr>track_id = 1, track_name = Some ''Bass'', track_instrumentFamily = Some ''bass'',
          track_notes = []\<rparr>,
         \<lparr>track_id = 2, track_name = Some ''Strings'', track_instrumentFamily = Some ''strings'',
          track_notes = []\<rparr>,
         \<lparr>track_id = 3, track_name = Some ''Flute'', track_instrumentFamily = Some ''pipe'',
          track_notes = []\<rparr>,
         \<lparr>track_id = 4, track_name = Some ''Guitar'', track_instrumentFamily = Some ''guitar'',
          track_notes = []\<rparr>,
         \<lparr>track_id = 5, track_name = Some ''Grand Piano'', track_instrumentFamily = Some ''piano'',
          track_notes = []\<rparr>]\<rparr>"

text \<open>A song as the decoder gives it for a file whose second track has no name event,
  and a song whose only track has the id 1.\<close>

definition song_unnamed :: MIDI where
  "song_unnamed =
     \<lparr>header_name = None, midi_duration = 90,
      midi_tracks =
        [\<lparr>track_id = 0, track_name = Some ''Grand Piano'',
          track_instrumentFamily = Some ''piano'', track_notes = []\<rparr>,
         \<lparr>track_id = 1, track_name = None, track_instrumentFamily = Some ''bass'',
          track_notes = []\<rparr>]\<rparr>"



text \<open>Traces: a song is requested and arrives; then track 7, which the song does not
  have, is activated; or tracks of the song are switched off and on.\<close>

definition trace_unknown_track :: "(rat \<times> Event) list" where
  "trace_unknown_track =
     [(0, Incoming (PLAY_SONG test_song)),
      (1, FetchResolved 0 song_500),
      (2, Incoming (CHANGE_TRACK_ACTIVE_STATUS \<lparr>tas_id = 7, tas_active = True\<rparr>))]"

definition trace_known_tracks :: "(rat \<times> Event) list" where
  "trace_known_tracks =
     [(0, Incoming (PLAY_SONG test_song)),
      (1, FetchResolved 0 song_500),
      (2, Incoming (CHANGE_TRACK_ACTIVE_STATUS \<lparr>tas_id = 1, tas_active = False\<rparr>)),
      (3, Incoming (CHANGE_ACTIVE_TRACKS family_piano_off)),
      (4, Incoming (CHANGE_TRACK_ACTIVE_STATUS \<lparr>tas_id = 1, tas_active = True\<rparr>))]"

section \<open>Properties\<close>

subsection \<open>The bucket map\<close>

lemma notes_at_push_note:
  "notes_at (push_note i n m) k j =
     notes_at m k j @ (if j = i \<and> roundedTime n = k then [queued n] else [])"
  by (auto simp: notes_at_def push_note_def Let_def split: option.splits)

lemma notes_at_fold_push_note:
  "notes_at (fold (push_note i) ns m) k j =
     notes_at m k j @ (if j = i then map queued (filter (\<lambda>n. roundedTime n = k) ns) else [])"
  by (induction ns arbitrary: m) (auto simp: notes_at_push_note)

lemma notes_at_fold_tracks:
  "notes_at (fold (\<lambda>(trackID, track) m. fold (push_note trackID) (track_notes track) m)
               (enumerate off ts) m) k j =
     notes_at m k j @
       (if off \<le> j \<and> j < off + length ts
        then map queued (filter (\<lambda>n. roundedTime n = k) (track_notes (ts ! (j - off))))
        else [])"
proof (induction ts arbitrary: off m)
  case Nil
  then show ?case by auto
next
  case (Cons t ts)
  show ?case
    by (auto simp add: Cons.IH notes_at_fold_push_note nth_Cons' Suc_diff_le)
qed

lemma notes_at_notesByTrackIDByTime:
  "notes_at (notesByTrackIDByTime song) k i =
     (if i < length (midi_tracks song)
      then map queued (filter (\<lambda>n. roundedTime n = k) (track_notes (midi_tracks song ! i)))
      else [])"
  by (simp add: notesByTrackIDByTime_def notes_at_fold_tracks) (simp add: notes_at_def)

text \<open>In exact arithmetic the key of the source and the floor of the millisecond onset
  over 100 agree; they differ by the rounding of the two products only.\<close>

lemma exact_keys_agree: "\<lfloor>(t :: rat) * 10\<rfloor> * 100 = \<lfloor>t * 1000 / 100\<rfloor> * 100"
proof -
  have "t * 1000 / 100 = t * 10"
    by simp
  then show ?thesis
    by (simp only:)
qed

text \<open>
  C4, as stated, fails.  The note of \<open>song_32_3\<close> starts at the double nearest to 32.3 s.
  The source computes its key from the seconds, \<open>Math.floor(note.time * 10) * 100\<close>, which
  is 32300, and stores the onset \<open>note.time * 1000\<close>, which is the double
  32299.999999999996...; the floor of that onset over 100, times 100, is 32200, whether
  the quotient is exact or rounded to a double.  The note sits in bucket 32300 and
  bucket 32200 is empty.
\<close>

theorem C4_key_is_not_floor_of_ms_counterexample:
  "notes_at (notesByTrackIDByTime song_32_3) 32300 0 = [queued note_32_3]
   \<and> notes_at (notesByTrackIDByTime song_32_3) 32200 0 = []
   \<and> Note_time (queued note_32_3) = 8878556394291199 / 274877906944
   \<and> \<lfloor>Note_time (queued note_32_3) / 100\<rfloor> * 100 = 32200
   \<and> \<lfloor>js_div (Note_time (queued note_32_3)) 100\<rfloor> * 100 = 32200"
  unfolding song_32_3_def note_32_3_def
  by code_simp

text \<open>
  C4, amended.  For every bucket key \<open>k\<close> and every track position \<open>i\<close>, the notes queued
  under \<open>k\<close> for \<open>i\<close> are exactly the notes of track \<open>i\<close> whose key
  \<open>floor(note.time * 10) * 100\<close>, computed from the onset in seconds, is \<open>k\<close>, in source
  order: every note is placed in the bucket of that key and in no other.
\<close>

theorem C4_bucket_of_every_note:
  "notes_at (notesByTrackIDByTime song) k i =
     (if i < length (midi_tracks song)
      then map queued
             (filter (\<lambda>note. \<lfloor>js_mul (note_time note) 10\<rfloor> * 100 = k)
                (track_notes (midi_tracks song ! i)))
      else [])"
  using notes_at_notesByTrackIDByTime [of song k i] by (simp add: roundedTime_def)

subsection \<open>The interval run\<close>

lemma tick_less_duration_iff:
  "(rat_of_nat count * 100 < D) = (count < nat \<lceil>D / 100\<rceil>)"
proof -
  have "(rat_of_nat count * 100 < D) = (of_int (int count) < D / 100)"
    by simp
  also have "\<dots> = (int count < \<lceil>D / 100\<rceil>)"
    by (simp only: less_ceiling_iff)
  also have "\<dots> = (count < nat \<lceil>D / 100\<rceil>)"
    by linarith
  finally show ?thesis .
qed

lemma interval_run_eq:
  "interval_run song until count = map (\<lambda>k. k * 100) [count..<run_length song until]"
proof (induction song until count rule: interval_run.induct)
  case (1 song until count)
  show ?case
  proof (cases "count < run_length song until")
    case True
    then have go: "\<not> (case until of None \<Rightarrow> False | Some c \<Rightarrow> c \<le> count)"
      and lt: "durationMs song > of_nat (count * 100)"
      by (auto simp: run_length_def tick_less_duration_iff split: option.splits)
    have "interval_run song until count = count * 100 # interval_run song until (Suc count)"
      using go lt by (subst interval_run.simps) simp
    also have "\<dots> = count * 100 # map (\<lambda>k. k * 100) [Suc count..<run_length song until]"
      using "1.IH" [OF go lt] by simp
    also have "\<dots> = map (\<lambda>k. k * 100) [count..<run_length song until]"
      using True by (simp add: upt_conv_Cons)
    finally show ?thesis .
  next
    case False
    then have "(case until of None \<Rightarrow> False | Some c \<Rightarrow> c \<le> count)
        \<or> \<not> durationMs song > of_nat (count * 100)"
      by (auto simp: run_length_def tick_less_duration_iff split: option.splits)
    then have "interval_run song until count = []"
      by (subst interval_run.simps) auto
    with False show ?thesis by simp
  qed
qed

lemma playCurrentTime_eq:
  "playCurrentTime song until = map (\<lambda>k. k * 100) [0..<run_length song until]"
  by (simp add: playCurrentTime_def interval_run_eq)

text \<open>
  C3.  A run for a song of duration \<open>D = durationMs song\<close> emits the offsets
  0, 100, ..., in this order and without gaps; every offset it emits is below \<open>D\<close>; a
  run that no stop request or offline signal cuts (\<open>until = None\<close>) emits every multiple
  of 100 below \<open>D\<close>; a run cut after \<open>c\<close> firings emits the first \<open>c\<close> of them.  The run
  ends: \<open>interval_run\<close> is a total function.
\<close>

theorem C3_tick_coverage:
  "playCurrentTime song until =
     map (\<lambda>k. k * 100) [0..<length (playCurrentTime song until)]
   \<and> (\<forall>t \<in> set (playCurrentTime song until). rat_of_nat t < durationMs song)
   \<and> (\<forall>k. rat_of_nat (k * 100) < durationMs song
          \<longrightarrow> k * 100 \<in> set (playCurrentTime song None))
   \<and> playCurrentTime song (Some c) = take c (playCurrentTime song None)"
proof (intro conjI)
  show "playCurrentTime song until =
     map (\<lambda>k. k * 100) [0..<length (playCurrentTime song until)]"
    by (simp add: playCurrentTime_eq)
  show "\<forall>t \<in> set (playCurrentTime song until). rat_of_nat t < durationMs song"
    by (auto simp: playCurrentTime_eq run_length_def tick_less_duration_iff
        split: option.splits)
  show "\<forall>k. rat_of_nat (k * 100) < durationMs song
          \<longrightarrow> k * 100 \<in> set (playCurrentTime song None)"
    by (auto simp: playCurrentTime_eq run_length_def tick_less_duration_iff)
  show "playCurrentTime song (Some c) = take c (playCurrentTime song None)"
    by (cases "c \<le> nat \<lceil>durationMs song / 100\<rceil>")
      (simp_all add: playCurrentTime_eq run_length_def take_map take_upt min_def)
qed

theorem C3_tick_coverage_witness:
  "durationMs song_500 = 500
   \<and> playCurrentTime song_500 None = [0, 100, 200, 300, 400]
   \<and> rat_of_nat (4 * 100) < durationMs song_500
   \<and> 4 * 100 \<in> set (playCurrentTime song_500 None)
   \<and> playCurrentTime song_500 (Some 2) = [0, 100]"
proof -
  have d: "durationMs song_500 = 500"
    unfolding song_500_def by code_simp
  have full: "playCurrentTime song_500 None = [0, 100, 200, 300, 400]"
    unfolding song_500_def by code_simp
  have lt: "rat_of_nat (4 * 100) < durationMs song_500"
    by (simp add: d)
  note c3 = C3_tick_coverage [of song_500 None 2]
  from c3 lt have mem: "4 * 100 \<in> set (playCurrentTime song_500 None)"
    by blast
  from c3 have "playCurrentTime song_500 (Some 2) = take 2 (playCurrentTime song_500 None)"
    by blast
  then have cut: "playCurrentTime song_500 (Some 2) = [0, 100]"
    by (simp add: full)
  from d full lt mem cut show ?thesis by blast
qed

subsection \<open>The notes of a tick\<close>

lemma note_tick_eq:
  "note_tick byTime activeTrackIDs startTime time =
     concat (map (\<lambda>trackID. map (\<lambda>note. note\<lparr>Note_time := js_add startTime (Note_time note)\<rparr>)
                                (notes_at byTime (int time) trackID)) activeTrackIDs)"
proof (cases "byTime (int time)")
  case None
  then show ?thesis by (simp add: note_tick_def notes_at_def)
next
  case (Some notesByTrackID)
  have "List.map_filter (\<lambda>value. value)
          (concat (map (\<lambda>trackID. case notesByTrackID trackID of
                                 None \<Rightarrow> [None] | Some ns \<Rightarrow> map Some ns) ids)) =
        concat (map (\<lambda>trackID. case notesByTrackID trackID of None \<Rightarrow> [] | Some ns \<Rightarrow> ns) ids)"
    for ids
    by (induction ids) (auto simp: map_filter_def comp_def split: option.splits)
  then show ?thesis
    using Some by (simp add: note_tick_def notes_at_def map_concat comp_def option.case_distrib)
qed

text \<open>
  C5.  Every note sent to the instrument at the tick \<open>t\<close> comes from a note of an
  active track whose bucket key is \<open>t\<close>, and its time is the starting time plus the raw
  onset of that note in milliseconds, \<open>note.time * 1000\<close> (the sum and the product being
  those of JavaScript numbers), not the starting time plus \<open>t\<close>.
\<close>

theorem C5_stamp_is_start_plus_raw_onset:
  assumes "out \<in> set (note_tick (notesByTrackIDByTime song) activeTrackIDs startTime t)"
  shows "\<exists>trackID note.
           trackID \<in> set activeTrackIDs \<and> trackID < length (midi_tracks song)
           \<and> note \<in> set (track_notes (midi_tracks song ! trackID))
           \<and> \<lfloor>js_mul (note_time note) 10\<rfloor> * 100 = int t
           \<and> out = (queued note)\<lparr>Note_time := js_add startTime (js_mul (note_time note) 1000)\<rparr>
           \<and> Note_time out = js_add startTime (js_mul (note_time note) 1000)"
proof -
  from assms obtain trackID q where active: "trackID \<in> set activeTrackIDs"
    and q: "q \<in> set (notes_at (notesByTrackIDByTime song) (int t) trackID)"
    and out: "out = q\<lparr>Note_time := js_add startTime (Note_time q)\<rparr>"
    by (auto simp: note_tick_eq)
  from q have range: "trackID < length (midi_tracks song)"
    by (auto simp: notes_at_notesByTrackIDByTime split: if_splits)
  with q obtain n where n: "n \<in> set (track_notes (midi_tracks song ! trackID))"
    and key: "roundedTime n = int t" and qn: "q = queued n"
    by (auto simp: notes_at_notesByTrackIDByTime)
  have "Note_time (queued n) = js_mul (note_time n) 1000"
    by (simp add: queued_def)
  with out qn have "out = (queued n)\<lparr>Note_time := js_add startTime (js_mul (note_time n) 1000)\<rparr>"
    by simp
  with active range n key show ?thesis
    by (auto simp: roundedTime_def)
qed

theorem C5_stamp_is_start_plus_raw_onset_witness:
  "note_tick (notesByTrackIDByTime song_500) [0, 1] 1000 200 =
     [\<lparr>Note_note = 62, Note_duration = 100, Note_velocity = 1 / 2, Note_time = 1250\<rparr>,
      \<lparr>Note_note = 38, Note_duration = 100, Note_velocity = 1 / 2, Note_time = 1250\<rparr>]
   \<and> (\<exists>trackID note.
         trackID \<in> set [0, 1] \<and> trackID < length (midi_tracks song_500)
         \<and> note \<in> set (track_notes (midi_tracks song_500 ! trackID))
         \<and> \<lfloor>js_mul (note_time note) 10\<rfloor> * 100 = int 200
         \<and> \<lparr>Note_note = 62, Note_duration = 100, Note_velocity = 1 / 2, Note_time = 1250\<rparr> =
             (queued note)\<lparr>Note_time := js_add 1000 (js_mul (note_time note) 1000)\<rparr>
         \<and> Note_time \<lparr>Note_note = 62, Note_duration = 100, Note_velocity = 1 / 2,
               Note_time = 1250\<rparr> = js_add 1000 (js_mul (note_time note) 1000))"
proof -
  have tick: "note_tick (notesByTrackIDByTime song_500) [0, 1] 1000 200 =
     [\<lparr>Note_note = 62, Note_duration = 100, Note_velocity = 1 / 2, Note_time = 1250\<rparr>,
      \<lparr>Note_note = 38, Note_duration = 100, Note_velocity = 1 / 2, Note_time = 1250\<rparr>]"
    unfolding song_500_def by code_simp
  then have "\<lparr>Note_note = 62, Note_duration = 100, Note_velocity = 1 / 2, Note_time = 1250\<rparr>
      \<in> set (note_tick (notesByTrackIDByTime song_500) [0, 1] 1000 200)"
    by simp
  from C5_stamp_is_start_plus_raw_onset [OF this] tick show ?thesis
    by blast
qed

subsection \<open>The active track list\<close>

lemma js_includes_sublist: "js_includes s piece = sublist piece s"
  by (induction s) (auto simp: sublist_Cons_right)

lemma js_split_not_Nil: "js_split sep s \<noteq> []"
  by (induction s) (auto split: list.splits)

lemma filter_throwing_total:
  "(\<And>x. x \<in> set xs \<Longrightarrow> p x = Inr (q x)) \<Longrightarrow> filter_throwing p xs = Inr (filter q xs)"
  by (induction xs) auto

lemma filter_throwing_subset: "filter_throwing p xs = Inr ys \<Longrightarrow> set ys \<subseteq> set xs"
proof (induction xs arbitrary: ys)
  case Nil
  then show ?case by simp
next
  case (Cons x xs)
  from Cons.prems obtain keep zs where "p x = Inr keep" and zs: "filter_throwing p xs = Inr zs"
    and ys: "ys = (if keep then x # zs else zs)"
    by (auto split: sum.splits)
  from Cons.IH [OF zs] ys show ?case by auto
qed

lemma filter_throwing_throws:
  "x \<in> set xs \<Longrightarrow> p x = Inl e \<Longrightarrow> \<exists>e'. filter_throwing p xs = Inl e'"
  by (induction xs) (auto split: sum.splits)

lemma some_throwing_total:
  "(\<And>x. x \<in> set xs \<Longrightarrow> p x = Inr (q x)) \<Longrightarrow> some_throwing p xs = Inr (\<exists>x. x \<in> set xs \<and> q x)"
  by (induction xs) auto

lemma matchesQuery_named:
  "track_name track = Some name \<Longrightarrow>
     matchesQuery toLowerCase pieces track =
       Inr (\<exists>piece. piece \<in> set pieces \<and> sublist piece (toLowerCase name))"
  unfolding matchesQuery_def
  by (rule some_throwing_total) (simp add: includesPiece_def js_includes_sublist)

text \<open>On a track without a name the callback of the search throws, whatever the
  query: there is always a first piece.\<close>

lemma matchesQuery_unnamed:
  "track_name track = None \<Longrightarrow>
     matchesQuery toLowerCase (queryPieces toLowerCase request) track = Inl TypeError"
proof -
  assume unnamed: "track_name track = None"
  obtain piece pieces where "queryPieces toLowerCase request = piece # pieces"
    using js_split_not_Nil [of "CHR '',''" "toLowerCase (atq_query request)"]
    by (cases "queryPieces toLowerCase request") (auto simp: queryPieces_def)
  with unnamed show ?thesis
    by (simp add: matchesQuery_def includesPiece_def)
qed


lemma set_push_missing: "set (push_missing old new) = set new \<union> set old"
  unfolding push_missing_def by (induction old arbitrary: new) auto


lemma set_changeTrackActiveStatus:
  "set (changeTrackActiveStatus request activeTrackIDs) =
     (if tas_active request then insert (tas_id request) (set activeTrackIDs)
      else set activeTrackIDs - {tas_id request})"
  by (auto simp: changeTrackActiveStatus_def)

lemma distinct_changeTrackActiveStatus:
  "distinct activeTrackIDs \<Longrightarrow> \<not> (tas_active request \<and> tas_id request \<in> set activeTrackIDs)
     \<Longrightarrow> distinct (changeTrackActiveStatus request activeTrackIDs)"
  by (auto simp: changeTrackActiveStatus_def)


text \<open>The search that activates, on a song whose tracks all have a name.\<close>

lemma search_activation_named:
  assumes "atq_query request \<noteq> ''all''" and "atq_query request \<noteq> ''family''"
    and "atq_active request" and "all_named song"
  shows "changeActiveTracks toLowerCase request old song =
     Inr (push_missing old
           (map track_id
              (filter (\<lambda>track. \<exists>name piece. track_name track = Some name
                          \<and> piece \<in> set (queryPieces toLowerCase request)
                          \<and> sublist piece (toLowerCase name))
                 (midi_tracks song))))"
proof -
  have "filter_throwing (matchesQuery toLowerCase (queryPieces toLowerCase request))
          (midi_tracks song) =
        Inr (filter (\<lambda>track. \<exists>name piece. track_name track = Some name
                          \<and> piece \<in> set (queryPieces toLowerCase request)
                          \<and> sublist piece (toLowerCase name))
               (midi_tracks song))"
  proof (rule filter_throwing_total)
    fix track assume "track \<in> set (midi_tracks song)"
    with assms(4) obtain name where "track_name track = Some name"
      by (auto simp: all_named_def list_all_iff)
    then show "matchesQuery toLowerCase (queryPieces toLowerCase request) track =
        Inr (\<exists>name piece. track_name track = Some name
               \<and> piece \<in> set (queryPieces toLowerCase request)
               \<and> sublist piece (toLowerCase name))"
      by (simp add: matchesQuery_named)
  qed
  with assms(1-3) show ?thesis
    by (simp add: changeActiveTracks_def)
qed



text \<open>Whatever a query returns is within the ids of the song when the old list is.\<close>

lemma changeActiveTracks_subset:
  assumes "changeActiveTracks toLowerCase request old song = Inr new"
    and "set old \<subseteq> set (allTrackIDs song)"
  shows "set new \<subseteq> set (allTrackIDs song)"
proof (cases "atq_query request = ''all''")
  case True
  with assms show ?thesis
    by (cases "atq_active request") (auto simp: changeActiveTracks_def allTrackIDs_def)
next
  case notall: False
  show ?thesis
  proof (cases "atq_query request = ''family''")
    case True
    show ?thesis
    proof (cases "atq_active request")
      case active: True
      with True notall assms show ?thesis
        by (auto simp: changeActiveTracks_def allTrackIDs_def)
    next
      case False
      with True notall assms(1) have "set new \<subseteq> set old"
        by (simp add: changeActiveTracks_def filter_throwing_subset)
      with assms(2) show ?thesis by blast
    qed
  next
    case search: False
    show ?thesis
    proof (cases "atq_active request")
      case True
      with search notall assms(1) obtain matching
        where m: "filter_throwing (matchesQuery toLowerCase (queryPieces toLowerCase request))
                    (midi_tracks song) = Inr matching"
          and new: "new = push_missing old (map track_id matching)"
        by (auto simp: changeActiveTracks_def split: sum.splits)
      from filter_throwing_subset [OF m] have "set (map track_id matching) \<subseteq> set (allTrackIDs song)"
        by (auto simp: allTrackIDs_def)
      with new assms(2) show ?thesis
        by (simp add: set_push_missing)
    next
      case False
      with search notall assms(1) have "set new \<subseteq> set old"
        by (simp add: changeActiveTracks_def filter_throwing_subset)
      with assms(2) show ?thesis by blast
    qed
  qed
qed

text \<open>Activating the tracks of a family twice gives the ids that activating them once
  gives, some of them more often.\<close>

lemma family_activation_twice_same_ids:
  assumes "atq_query request = ''family''" and "atq_active request"
    and "changeActiveTracks toLowerCase request old song = Inr once"
    and "changeActiveTracks toLowerCase request once song = Inr twice"
  shows "set twice = set once"
  using assms by (auto simp: changeActiveTracks_def)

lemma search_activation_unnamed_throws:
  assumes "atq_query request \<noteq> ''all''" and "atq_query request \<noteq> ''family''"
    and "atq_active request" and "\<not> all_named song"
  shows "changeActiveTracks toLowerCase request old song = Inl TypeError"
proof -
  from assms(4) obtain track where "track \<in> set (midi_tracks song)"
    and "track_name track = None"
    by (auto simp: all_named_def list_all_iff)
  then obtain e where "filter_throwing
      (matchesQuery toLowerCase (queryPieces toLowerCase request)) (midi_tracks song) = Inl e"
    using filter_throwing_throws matchesQuery_unnamed by metis
  moreover have "e = TypeError"
    by (cases e) simp
  ultimately show ?thesis
    using assms(1-3) by (simp add: changeActiveTracks_def)
qed

lemma search_activation_named_ids:
  assumes "atq_query request \<noteq> ''all''" and "atq_query request \<noteq> ''family''"
    and "atq_active request" and "all_named song"
  shows "\<exists>new. changeActiveTracks toLowerCase request old song = Inr new
     \<and> set new =
         {track_id track | track name piece. track \<in> set (midi_tracks song)
            \<and> track_name track = Some name
            \<and> piece \<in> set (queryPieces toLowerCase request)
            \<and> sublist piece (toLowerCase name)}
         \<union> set old"
  by (subst search_activation_named [OF assms]) (auto simp: set_push_missing)

text \<open>
  C2: the code appends the id of an activation request without looking for it in the
  list (line 191).  After \<open>song_500\<close> has arrived, tracks 0 and 1 are active; the request
  \<open>{id: 0, active: true}\<close> gives the list 0, 1, 0, in which track 0 occurs twice, and the
  tick 0 then sends the note of track 0 twice.  (The ids of the result are those the
  claim gives, \<open>set_changeTrackActiveStatus\<close>, and a request to deactivate, or to
  activate an absent id, keeps a list free of repetitions,
  \<open>distinct_changeTrackActiveStatus\<close>.)
\<close>

theorem C2_activation_appends_duplicate:
  "changeTrackActiveStatus \<lparr>tas_id = 0, tas_active = True\<rparr> (allTrackIDs song_500) = [0, 1, 0]
   \<and> \<not> distinct (changeTrackActiveStatus \<lparr>tas_id = 0, tas_active = True\<rparr> (allTrackIDs song_500))
   \<and> note_tick (notesByTrackIDByTime song_500) [0, 1, 0] 1000 0 =
       [\<lparr>Note_note = 60, Note_duration = 100, Note_velocity = 1 / 2, Note_time = 1000\<rparr>,
        \<lparr>Note_note = 36, Note_duration = 100, Note_velocity = 1 / 2, Note_time = 1000\<rparr>,
        \<lparr>Note_note = 60, Note_duration = 100, Note_velocity = 1 / 2, Note_time = 1000\<rparr>]"
  unfolding song_500_def by code_simp

text \<open>
  C6: the search reads \<open>track.name.toLowerCase()\<close> of every track of the song without
  looking whether the track has a name (line 234), as line 89 does for the name of the
  song.  \<open>song_unnamed\<close> has the track 0, Grand Piano, and the track 1 without a name;
  with track 1 active, the query \<open>{query: 'Piano', active: true}\<close> accepts track 0 and
  throws at track 1, where the claim gives the tracks 0 and 1.  (On a song whose tracks
  all have a name the result has the ids the claim gives, \<open>search_activation_named_ids\<close>;
  on any other song the search that activates throws,
  \<open>search_activation_unnamed_throws\<close>.)
\<close>

theorem C6_search_activation_throws_on_unnamed_track:
  "matchesQuery toLowerCase_ascii (queryPieces toLowerCase_ascii search_piano_on)
       (midi_tracks song_unnamed ! 0) = Inr True
   \<and> matchesQuery toLowerCase_ascii (queryPieces toLowerCase_ascii search_piano_on)
       (midi_tracks song_unnamed ! 1) = Inl TypeError
   \<and> changeActiveTracks toLowerCase_ascii search_piano_on [1] song_unnamed = Inl TypeError"
  unfolding song_unnamed_def search_piano_on_def by code_simp

text \<open>
  C7: the code appends the ids of the family to the old list without looking for them
  in it (line 216).  With \<open>song_500\<close>, whose track 0 is of the family piano, and track 1
  active, the query \<open>{query: 'family', id: 'piano', active: true}\<close> gives 1, 0; applied
  again it gives 1, 0, 0, another list, in which track 0 occurs twice, and the tick 0
  then sends the note of track 0 twice.  (The two lists have the same ids,
  \<open>family_activation_twice_same_ids\<close>.)
\<close>

theorem C7_family_activation_twice_duplicates:
  "changeActiveTracks toLowerCase_ascii family_piano_on [1] song_500 = Inr [1, 0]
   \<and> changeActiveTracks toLowerCase_ascii family_piano_on [1, 0] song_500 = Inr [1, 0, 0]
   \<and> note_tick (notesByTrackIDByTime song_500) [1, 0, 0] 1000 0 =
       [\<lparr>Note_note = 36, Note_duration = 100, Note_velocity = 1 / 2, Note_time = 1000\<rparr>,
        \<lparr>Note_note = 60, Note_duration = 100, Note_velocity = 1 / 2, Note_time = 1000\<rparr>,
        \<lparr>Note_note = 60, Note_duration = 100, Note_velocity = 1 / 2, Note_time = 1000\<rparr>]"
  unfolding song_500_def family_piano_on_def by code_simp




subsection \<open>The step function\<close>

text \<open>A step that does not throw keeps the active list within the ids of the current
  song, when the track it activates is one of them.\<close>

lemma step_subset:
  assumes "activeSubset st" and "acceptable ev st"
    and "step toLowerCase now ev st = Inr (st', out)"
  shows "activeSubset st'"
proof (cases ev)
  case (Incoming message)
  show ?thesis
  proof (cases message)
    case (PLAY_SONG song)
    with Incoming assms show ?thesis
      by (auto simp: activeSubset_def split: option.splits)
  next
    case (CHANGE_PLAYBACK_STATUS status)
    with Incoming assms show ?thesis
      by (auto simp: activeSubset_def split: option.splits if_splits)
  next
    case (CHANGE_TRACK_ACTIVE_STATUS request)
    with Incoming assms show ?thesis
      by (auto simp: activeSubset_def changeTrackActiveStatus_def list_all_iff Let_def
          split: option.splits if_splits)
  next
    case (CHANGE_ACTIVE_TRACKS request)
    show ?thesis
    proof (cases "activeTrackIDProxy st")
      case None
      with CHANGE_ACTIVE_TRACKS Incoming assms show ?thesis by simp
    next
      case (Some old)
      show ?thesis
      proof (cases "midiSong st")
        case None
        with Some CHANGE_ACTIVE_TRACKS Incoming assms show ?thesis by simp
      next
        case song: (Some song)
        have old: "set old \<subseteq> set (allTrackIDs song)"
          using assms(1) Some song by (auto simp: activeSubset_def list_all_iff)
        from assms(3) Some song CHANGE_ACTIVE_TRACKS Incoming obtain new
          where new: "changeActiveTracks toLowerCase request old song = Inr new"
            and st': "st' = st\<lparr>activeTrackIDProxy := Some new\<rparr>"
          by (auto split: sum.splits)
        from changeActiveTracks_subset [OF new old] st' song show ?thesis
          by (auto simp: activeSubset_def list_all_iff)
      qed
    qed
  next
    case UPDATE_STATUSES
    with Incoming assms show ?thesis by simp
  qed
next
  case (InstrumentAvailability isAvailable)
  with assms show ?thesis
    by (cases isAvailable) (auto simp: activeSubset_def split: option.splits)
next
  case (FetchResolved k parsed)
  with assms show ?thesis
    by (auto simp: activeSubset_def Let_def list_all_iff split: option.splits if_splits)
next
  case (FetchRejected k)
  with assms show ?thesis
    by (auto simp: activeSubset_def split: option.splits)
qed

lemma run_subset:
  assumes "activeSubset st" and "all_acceptable toLowerCase evs st"
    and "run toLowerCase evs st = Inr st'"
  shows "activeSubset st'"
  using assms
proof (induction evs arbitrary: st)
  case Nil
  then show ?case by simp
next
  case (Cons a evs)
  obtain now ev where a: "a = (now, ev)" by (cases a)
  from Cons.prems(3) a obtain st1 out
    where st1: "step toLowerCase now ev st = Inr (st1, out)"
      and rest: "run toLowerCase evs st1 = Inr st'"
    by (auto split: sum.splits)
  from Cons.prems(2) a st1 have acc: "acceptable ev st"
    and accs: "all_acceptable toLowerCase evs st1"
    by simp_all
  from step_subset [OF Cons.prems(1) acc st1] have "activeSubset st1" .
  from Cons.IH [OF this accs rest] show ?case .
qed

lemma all_acceptable_take:
  "all_acceptable toLowerCase evs st \<Longrightarrow> all_acceptable toLowerCase (take n evs) st"
proof (induction evs arbitrary: n st)
  case Nil
  then show ?case by simp
next
  case (Cons a evs)
  obtain now ev where a: "a = (now, ev)" by (cases a)
  show ?case
  proof (cases n)
    case 0
    then show ?thesis by simp
  next
    case (Suc m)
    with Cons a show ?thesis
      by (auto split: sum.splits)
  qed
qed

text \<open>
  C1, as stated, fails: an activation request is not checked against the song (line
  191).  After \<open>song_500\<close>, with the tracks 0 and 1, has arrived, the request
  \<open>{id: 7, active: true}\<close> leaves the active list 0, 1, 7, and a query that deactivates
  a family then throws at \<open>song.tracks[7]\<close>.
\<close>

theorem C1_unknown_track_activation_counterexample:
  "run toLowerCase_ascii trace_unknown_track initial =
     Inr \<lparr>midiSong = Some song_500, pending = [], activeTrackIDProxy = Some [0, 1, 7],
          playStartingTime = Some 1\<rparr>
   \<and> allTrackIDs song_500 = [0, 1]
   \<and> \<not> activeSubset \<lparr>midiSong = Some song_500, pending = [],
          activeTrackIDProxy = Some [0, 1, 7], playStartingTime = Some 1\<rparr>
   \<and> run toLowerCase_ascii
         (trace_unknown_track @ [(3, Incoming (CHANGE_ACTIVE_TRACKS family_piano_off))]) initial
       = Inl TypeError"
  unfolding trace_unknown_track_def initial_def song_500_def test_song_def family_piano_off_def
  by code_simp

text \<open>
  C1, amended.  For every sequence of events in which every activation request names
  a track of the song that is current when it arrives, the active list is, after every
  number \<open>n\<close> of events that the fold has taken, within the track ids of the current
  song.
\<close>

theorem C1_active_ids_subset_of_song:
  assumes "all_acceptable toLowerCase evs initial"
    and "run toLowerCase (take n evs) initial = Inr st"
  shows "activeSubset st"
proof -
  have "activeSubset initial"
    by (simp add: initial_def activeSubset_def)
  from run_subset [OF this all_acceptable_take [OF assms(1)] assms(2)] show ?thesis .
qed

theorem C1_active_ids_subset_of_song_witness:
  "all_acceptable toLowerCase_ascii trace_known_tracks initial
   \<and> run toLowerCase_ascii (take 5 trace_known_tracks) initial =
       Inr \<lparr>midiSong = Some song_500, pending = [], activeTrackIDProxy = Some [1],
            playStartingTime = Some 1\<rparr>
   \<and> activeSubset \<lparr>midiSong = Some song_500, pending = [], activeTrackIDProxy = Some [1],
            playStartingTime = Some 1\<rparr>"
proof -
  have acc: "all_acceptable toLowerCase_ascii trace_known_tracks initial"
    unfolding trace_known_tracks_def initial_def song_500_def test_song_def family_piano_off_def
    by code_simp
  have res: "run toLowerCase_ascii (take 5 trace_known_tracks) initial =
       Inr \<lparr>midiSong = Some song_500, pending = [], activeTrackIDProxy = Some [1],
            playStartingTime = Some 1\<rparr>"
    unfolding trace_known_tracks_def initial_def song_500_def test_song_def family_piano_off_def
    by code_simp
  from C1_active_ids_subset_of_song [OF acc res] acc res show ?thesis by blast
qed

text \<open>
  C9, as stated, fails: submitting a song reference starts its fetch and nothing else.
  The step of a PLAY_SONG message emits no starting time and leaves none recorded, and
  when the fetch fails the state is the initial one again.
\<close>

theorem C9_play_song_submission_counterexample:
  "step toLowerCase_ascii 5 (Incoming (PLAY_SONG test_song)) initial =
     Inr (\<lparr>midiSong = None, pending = [test_song], activeTrackIDProxy = None,
           playStartingTime = None\<rparr>, [])
   \<and> run toLowerCase_ascii [(5, Incoming (PLAY_SONG test_song)), (9, FetchRejected 0)] initial
       = Inr initial"
  by (simp add: initial_def drop_nth_def)

text \<open>
  C9, amended.  \<open>playStartingTime$\<close> emits, and \<open>currentPlaybackStatus$\<close> with it emits
  PLAYING (line 284), exactly at a request for the status PLAYING and at the arrival of
  the decoded song of a pending PLAY_SONG request; the value emitted is \<open>now\<close>, it is the
  starting time recorded afterwards, and the run that starts emits the offsets
  0, 100, ... below the duration of the current song (none while there is no song).
\<close>

theorem C9_playing_on_song_arrival_or_play_request:
  assumes "step toLowerCase now ev st = Inr (st', out)"
  shows "(PlayStartingTime t \<in> set out) =
           (t = now \<and> (ev = Incoming (CHANGE_PLAYBACK_STATUS PLAYING)
              \<or> (\<exists>k parsed. ev = FetchResolved k parsed \<and> k < length (pending st))))
    \<and> (PlayStartingTime now \<in> set out \<longrightarrow>
          playStartingTime st' = Some now
          \<and> ticks_of_run st' until =
              (case midiSong st' of None \<Rightarrow> []
               | Some song \<Rightarrow> map (\<lambda>k. k * 100) [0..<run_length song until]))"
proof -
  have "(PlayStartingTime t \<in> set out) =
           (t = now \<and> (ev = Incoming (CHANGE_PLAYBACK_STATUS PLAYING)
              \<or> (\<exists>k parsed. ev = FetchResolved k parsed \<and> k < length (pending st))))"
    using assms
    by (cases "(toLowerCase, now, ev, st)" rule: step.cases)
       (auto simp: Let_def split: if_splits option.splits sum.splits)
  moreover have "PlayStartingTime now \<in> set out \<Longrightarrow> playStartingTime st' = Some now"
    using assms
    by (cases "(toLowerCase, now, ev, st)" rule: step.cases)
       (auto simp: Let_def split: if_splits option.splits sum.splits)
  moreover have "ticks_of_run st' until =
           (case midiSong st' of None \<Rightarrow> []
            | Some song \<Rightarrow> map (\<lambda>k. k * 100) [0..<run_length song until])"
    by (simp add: ticks_of_run_def playCurrentTime_eq split: option.splits)
  ultimately show ?thesis by blast
qed

theorem C9_playing_on_song_arrival_or_play_request_witness:
  "step toLowerCase_ascii 7 (FetchResolved 0 song_500)
       \<lparr>midiSong = None, pending = [test_song], activeTrackIDProxy = None,
        playStartingTime = None\<rparr> =
     Inr (\<lparr>midiSong = Some song_500, pending = [], activeTrackIDProxy = Some [0, 1],
           playStartingTime = Some 7\<rparr>,
          [MidiSong song_500, PlayStartingTime 7, ActiveTrackIDs [0, 1]])
   \<and> PlayStartingTime 7 \<in> set [MidiSong song_500, PlayStartingTime 7, ActiveTrackIDs [0, 1]]
   \<and> ticks_of_run \<lparr>midiSong = Some song_500, pending = [], activeTrackIDProxy = Some [0, 1],
           playStartingTime = Some 7\<rparr> None = [0, 100, 200, 300, 400]"
proof -
  have s: "step toLowerCase_ascii 7 (FetchResolved 0 song_500)
       \<lparr>midiSong = None, pending = [test_song], activeTrackIDProxy = None,
        playStartingTime = None\<rparr> =
     Inr (\<lparr>midiSong = Some song_500, pending = [], activeTrackIDProxy = Some [0, 1],
           playStartingTime = Some 7\<rparr>,
          [MidiSong song_500, PlayStartingTime 7, ActiveTrackIDs [0, 1]])"
    unfolding song_500_def test_song_def by code_simp
  have m: "PlayStartingTime 7 \<in> set [MidiSong song_500, PlayStartingTime 7, ActiveTrackIDs [0, 1]]"
    by simp
  have n: "nat \<lceil>durationMs song_500 / 100\<rceil> = 5"
    unfolding song_500_def by code_simp
  from C9_playing_on_song_arrival_or_play_request [OF s, of 7 None] m
  have "ticks_of_run \<lparr>midiSong = Some song_500, pending = [], activeTrackIDProxy = Some [0, 1],
           playStartingTime = Some 7\<rparr> None = map (\<lambda>k. k * 100) [0..<run_length song_500 None]"
    by simp
  also have "\<dots> = [0, 100, 200, 300, 400]"
    by (simp add: run_length_def n upt_conv_Cons)
  finally show ?thesis using s m by blast
qed

subsection \<open>The connection signal\<close>

text \<open>
  C10, as stated, fails: at a request for the status PLAYING the sink emits the payload
  of that request, the status, not a song reference, also when a song was requested
  before.
\<close>

theorem C10_play_request_emits_status_counterexample:
  "instrumentConnection [CHANGE_PLAYBACK_STATUS PLAYING] = [Undefined, StatusPayload PLAYING]
   \<and> instrumentConnection [PLAY_SONG test_song, CHANGE_PLAYBACK_STATUS PLAYING] =
       [Undefined, SongPayload test_song, StatusPayload PLAYING]"
  by (simp add: instrumentConnection_def map_filter_def)

text \<open>
  C10, amended.  The sink starts with \<open>undefined\<close>; after that it emits, at every
  PLAY_SONG message, the song reference of the message, at every request for the status
  PLAYING, the status PLAYING, and nothing at any other message.
\<close>

theorem C10_connection_signal:
  "instrumentConnection [] = [Undefined]
   \<and> instrumentConnection (messages @ [message]) =
       instrumentConnection messages @
         (case message of
            PLAY_SONG song \<Rightarrow> [SongPayload song]
          | CHANGE_PLAYBACK_STATUS status \<Rightarrow>
              (if status = PLAYING then [StatusPayload PLAYING] else [])
          | _ \<Rightarrow> [])"
  by (cases message) (auto simp: instrumentConnection_def map_filter_def)

end
